theory Spec2Isabelle
  imports Main "HOL-Library.Char_ord" "HOL-Library.List_Lexorder" "HOL-Library.Sublist"
    "HOL-Library.AList"
begin

section \<open>Values, strings and errors\<close>

text \<open>
  The extension is JavaScript. A \<^typ>\<open>string\<close> stands for a JavaScript string whose code
  units are all below 256, one \<^typ>\<open>char\<close> per code unit. Numbers are integers, as the data
  model has them (\<open>confidence\<close>, \<open>threshold\<close>, time stamps): the program only compares them,
  takes \<open>Math.max\<close>/\<open>Math.min\<close> and adds constants.

  \<open>jsval\<close> is the part of the JavaScript value space the program handles: what
  \<open>JSON.parse\<close> and \<open>chrome.storage.local\<close> hold, and \<open>undefined\<close> for a missing property.
  An object is the list of its own properties.
\<close>

datatype jsval =
    JUndefined
  | JNull
  | JBool bool
  | JNum int
  | JStr string
  | JArr "jsval list"
  | JObj "(string \<times> jsval) list"

text \<open>
  A thrown exception. \<open>Error v\<close> is \<open>new Error(v)\<close> with the value handed to the
  constructor; \<open>FetchRejected\<close> is the rejection of \<open>fetch\<close> itself; \<open>SyntaxError\<close> is
  what \<open>JSON.parse\<close> and \<open>response.json()\<close> raise.
\<close>

datatype error = TypeError | SyntaxError | FetchRejected | Error jsval

text \<open>JavaScript truthiness (\<open>!v\<close>, \<open>v || d\<close>, \<open>v && w\<close>).\<close>

fun truthy :: "jsval \<Rightarrow> bool" where
  "truthy JUndefined = False"
| "truthy JNull = False"
| "truthy (JBool b) = b"
| "truthy (JNum n) = (n \<noteq> 0)"
| "truthy (JStr s) = (s \<noteq> [])"
| "truthy (JArr xs) = True"
| "truthy (JObj fs) = True"

text \<open>\<open>a || d\<close>.\<close>

definition or_else :: "jsval \<Rightarrow> jsval \<Rightarrow> jsval" where
  "or_else a d = (if truthy a then a else d)"

text \<open>
  \<open>String.prototype.toLowerCase\<close> on code units below 256: the letters A-Z and the
  Latin-1 capitals (192-222 without the multiplication sign 215) move up by 32, which is
  setting bit 5; every other code unit stays.
\<close>

definition is_upper :: "char \<Rightarrow> bool" where
  "is_upper c =
     (let n = (of_char c :: nat)
      in (65 \<le> n \<and> n \<le> 90) \<or> (192 \<le> n \<and> n \<le> 222 \<and> n \<noteq> 215))"

fun lower_char :: "char \<Rightarrow> char" where
  "lower_char (Char b0 b1 b2 b3 b4 b5 b6 b7) =
     (if is_upper (Char b0 b1 b2 b3 b4 b5 b6 b7) then Char b0 b1 b2 b3 b4 True b6 b7
      else Char b0 b1 b2 b3 b4 b5 b6 b7)"

definition toLowerCase :: "string \<Rightarrow> string" where
  "toLowerCase s = map lower_char s"

text \<open>\<open>s.startsWith(p)\<close> and \<open>s.includes(t)\<close>.\<close>

fun startsWith :: "string \<Rightarrow> string \<Rightarrow> bool" where
  "startsWith s [] = True"
| "startsWith [] (p # ps) = False"
| "startsWith (c # s) (p # ps) = (c = p \<and> startsWith s ps)"

fun includes_str :: "string \<Rightarrow> string \<Rightarrow> bool" where
  "includes_str [] t = (t = [])"
| "includes_str (c # s) t = (startsWith (c # s) t \<or> includes_str s t)"

text \<open>
  Template-literal rendering of an integer (\<open>`${n}`\<close>): decimal digits, a minus sign
  for a negative number. JavaScript prints the same below \<open>10^21\<close> in absolute value.
\<close>

definition digit_char :: "int \<Rightarrow> char" where
  "digit_char d = char_of (48 + d)"

function show_digits :: "int \<Rightarrow> string" where
  "show_digits n =
     (if n < 10 then [digit_char n] else show_digits (n div 10) @ [digit_char (n mod 10)])"
  by pat_completeness auto
termination
  by (relation "measure nat") auto

declare show_digits.simps [simp del]

definition show_int :: "int \<Rightarrow> string" where
  "show_int i = (if i < 0 then CHR ''-'' # show_digits (- i) else show_digits i)"

text \<open>Sequencing of steps that may throw.\<close>

definition bind :: "error + 'a \<Rightarrow> ('a \<Rightarrow> error + 'b) \<Rightarrow> error + 'b" where
  "bind m f = (case m of Inl err \<Rightarrow> Inl err | Inr v \<Rightarrow> f v)"

text \<open>\<open>typeof v\<close> and \<open>Array.isArray(v)\<close>, and the readings of a value of a known type.\<close>

fun typeof :: "jsval \<Rightarrow> string" where
  "typeof JUndefined = ''undefined''"
| "typeof JNull = ''object''"
| "typeof (JBool b) = ''boolean''"
| "typeof (JNum n) = ''number''"
| "typeof (JStr s) = ''string''"
| "typeof (JArr xs) = ''object''"
| "typeof (JObj fs) = ''object''"

fun isArray :: "jsval \<Rightarrow> bool" where
  "isArray (JArr xs) = True"
| "isArray v = False"

fun bool_of :: "jsval \<Rightarrow> bool" where
  "bool_of (JBool b) = b"
| "bool_of v = False"

fun num_of :: "jsval \<Rightarrow> int" where
  "num_of (JNum n) = n"
| "num_of v = 0"

fun elems_of :: "jsval \<Rightarrow> jsval list" where
  "elems_of (JArr xs) = xs"
| "elems_of v = []"

fun str_of :: "jsval \<Rightarrow> string" where
  "str_of (JStr s) = s"
| "str_of v = []"

section \<open>The platform\<close>

text \<open>
  What the platform and the language supply and the program does not define: the URL
  parser (\<open>new URL(v).hostname\<close>, \<open>None\<close> when the constructor throws), the outcome of
  the one \<open>fetch\<close> call (\<open>None\<close> when the promise rejects), \<open>JSON.parse\<close> (\<open>None\<close> when it
  throws), the two readings of \<open>Date.now()\<close>, and two coercions of a value that is not
  a plain number or boolean: the comparison \<open>v > 0\<close> on a string, an array or an object,
  and the conversion of an array or an object to a string (\<open>None\<close> when the conversion
  throws its TypeError). A response carries \<open>ok\<close>, \<open>status\<close> and the result of
  \<open>response.json()\<close> (\<open>None\<close> when that promise rejects).
\<close>

record http_response =
  ok :: bool
  status :: int
  json :: "jsval option"

record env =
  url_hostname :: "jsval \<Rightarrow> string option"
  gt_zero_coerced :: "jsval \<Rightarrow> bool option"
  to_string_coerced :: "jsval \<Rightarrow> string option"
  fetch :: "http_response option"
  JSON_parse :: "string \<Rightarrow> jsval option"
  now_key :: int
  now_stamp :: int

text \<open>\<open>v > 0\<close> and the string a template literal makes of \<open>v\<close>.\<close>

definition gt_zero :: "env \<Rightarrow> jsval \<Rightarrow> error + bool" where
  "gt_zero ev v =
     (case v of
        JUndefined \<Rightarrow> Inr False
      | JNull \<Rightarrow> Inr False
      | JBool b \<Rightarrow> Inr b
      | JNum n \<Rightarrow> Inr (0 < n)
      | other \<Rightarrow> (case gt_zero_coerced ev v of None \<Rightarrow> Inl TypeError | Some p \<Rightarrow> Inr p))"

definition to_string :: "env \<Rightarrow> jsval \<Rightarrow> error + string" where
  "to_string ev v =
     (case v of
        JUndefined \<Rightarrow> Inr ''undefined''
      | JNull \<Rightarrow> Inr ''null''
      | JBool b \<Rightarrow> Inr (if b then ''true'' else ''false'')
      | JNum n \<Rightarrow> Inr (show_int n)
      | JStr s \<Rightarrow> Inr s
      | other \<Rightarrow> (case to_string_coerced ev v of None \<Rightarrow> Inl TypeError | Some t \<Rightarrow> Inr t))"

text \<open>
  Method calls and the \<open>length\<close> property. \<open>toLowerCase\<close>, \<open>substring\<close> exist on strings
  and \<open>some\<close>, \<open>slice(..).join\<close> on arrays; on any other value the call throws a TypeError
  (the property is missing, or it holds a value that is not a function). \<open>length_prop v\<close>
  is \<open>v.length\<close>.
\<close>

definition toLowerCase_call :: "jsval \<Rightarrow> error + string" where
  "toLowerCase_call v = (case v of JStr s \<Rightarrow> Inr (toLowerCase s) | other \<Rightarrow> Inl TypeError)"

definition substring_call :: "jsval \<Rightarrow> nat \<Rightarrow> error + string" where
  "substring_call v n = (case v of JStr s \<Rightarrow> Inr (take n s) | other \<Rightarrow> Inl TypeError)"

definition some_call :: "(jsval \<Rightarrow> bool) \<Rightarrow> jsval \<Rightarrow> error + bool" where
  "some_call f v = (case v of JArr xs \<Rightarrow> Inr (list_ex f xs) | other \<Rightarrow> Inl TypeError)"

fun length_prop :: "jsval \<Rightarrow> error + jsval" where
  "length_prop JUndefined = Inl TypeError"
| "length_prop JNull = Inl TypeError"
| "length_prop (JStr s) = Inr (JNum (int (length s)))"
| "length_prop (JArr xs) = Inr (JNum (int (length xs)))"
| "length_prop (JObj fs) = Inr (case map_of fs ''length'' of None \<Rightarrow> JUndefined | Some v \<Rightarrow> v)"
| "length_prop v = Inr JUndefined"

section \<open>Data model\<close>

text \<open>
  \<open>emailData\<close> is the object of the message, with the five properties the program reads;
  each may hold any value, \<open>undefined\<close> when the property is missing. The field \<open>from\<close> is
  called \<open>from_addr\<close> here.
\<close>

record emailData =
  from_addr :: jsval
  subject :: jsval
  body :: jsval
  links :: jsval
  emailId :: jsval

record analysisResult =
  isPhishing :: bool
  confidence :: int
  indicators :: "jsval list"
  recommendation :: string

section \<open>The local scan (background.js, runLocalBasicScan)\<close>

definition PHISHING_THRESHOLD :: int where
  "PHISHING_THRESHOLD = 45"

text \<open>The array \<open>keywords\<close> of the scan.\<close>

definition keyword_terms :: "string list" where
  "keyword_terms =
     [''urgent'', ''account suspended'', ''verify account'', ''click here to update'',
      ''password expired'', ''payment failed'', ''unauthorized access'', ''invoice attached'']"

definition keyword_indicator :: "string \<Rightarrow> string" where
  "keyword_indicator kw = ''Keyword detected: \"'' @ kw @ ''\"''"

definition links_found :: string where
  "links_found = ''Links found (Requires manual verification)''"

definition link_mismatch_indicator :: string where
  "link_mismatch_indicator = ''Link domain does not match email context (high risk)''"

definition phishing_msg :: string where
  "phishing_msg =
     ''Potential Phishing Detected via Local Scan. Use extreme caution and manually verify the sender and links.''"

definition cautious_msg :: string where
  "cautious_msg =
     ''Email appears safe based on basic local checks, but minor indicators were found. Use caution for complex or novel threats.''"

definition safe_msg :: string where
  "safe_msg = ''Email appears safe based on basic local checks.''"

definition fallback_notice :: string where
  "fallback_notice = ''API Scan failed due to error/limit. ''"

text \<open>
  The scan keeps two mutable locals, \<open>indicators\<close> and \<open>confidence\<close>; they are threaded
  through as a pair. \<open>keyword_step\<close> is the body of \<open>keywords.forEach\<close>, with \<open>b\<close> and
  \<open>s\<close> the lower-cased body and subject.
\<close>

type_synonym scan_acc = "jsval list \<times> int"

definition keyword_step :: "string \<Rightarrow> string \<Rightarrow> string \<Rightarrow> scan_acc \<Rightarrow> scan_acc" where
  "keyword_step b s kw acc =
     (if includes_str b kw \<or> includes_str s kw
      then (fst acc @ [JStr (keyword_indicator kw)], snd acc + 15)
      else acc)"

definition keyword_scan :: "string \<Rightarrow> string \<Rightarrow> scan_acc" where
  "keyword_scan b s = fold (keyword_step b s) keyword_terms ([], 0)"

text \<open>
  The callback of \<open>emailData.links.some\<close>; everything in it is inside its \<open>try\<close>, so it
  never throws.
\<close>

definition link_mismatch :: "env \<Rightarrow> string \<Rightarrow> string \<Rightarrow> jsval \<Rightarrow> bool" where
  "link_mismatch ev b s link =
     (case url_hostname ev link of
        None \<Rightarrow> True
      | Some h \<Rightarrow> \<not> includes_str b (toLowerCase h) \<and> \<not> includes_str s (toLowerCase h))"

text \<open>
  The condition \<open>emailData.links && emailData.links.length > 0\<close>, and the statements
  it guards. \<open>emailData.links.some\<close> is called on whatever passed the guard.
\<close>

definition links_present :: "env \<Rightarrow> jsval \<Rightarrow> error + bool" where
  "links_present ev l =
     (if \<not> truthy l then Inr False else bind (length_prop l) (gt_zero ev))"

definition link_scan :: "env \<Rightarrow> string \<Rightarrow> string \<Rightarrow> jsval \<Rightarrow> scan_acc \<Rightarrow> error + scan_acc" where
  "link_scan ev b s l acc =
     (let acc1 = (if snd acc < PHISHING_THRESHOLD
                  then (fst acc @ [JStr links_found], snd acc + 10)
                  else acc)
      in case some_call (link_mismatch ev b s) l of
           Inl err \<Rightarrow> Inl err
         | Inr linkMismatch \<Rightarrow>
             Inr (if linkMismatch
                  then (fst acc1 @ [JStr link_mismatch_indicator], snd acc1 + 30)
                  else acc1))"

definition local_recommendation :: "bool \<Rightarrow> int \<Rightarrow> bool \<Rightarrow> string" where
  "local_recommendation phishing conf isFallback =
     (let r = (if phishing then phishing_msg
               else if conf > 0 then cautious_msg
               else safe_msg)
      in if isFallback then fallback_notice @ r else r)"

text \<open>The whole \<open>if (emailData.links && emailData.links.length > 0) { ... }\<close>.\<close>

definition link_block :: "env \<Rightarrow> string \<Rightarrow> string \<Rightarrow> jsval \<Rightarrow> scan_acc \<Rightarrow> error + scan_acc" where
  "link_block ev b s l acc =
     (case links_present ev l of
        Inl err \<Rightarrow> Inl err
      | Inr present \<Rightarrow> if present then link_scan ev b s l acc else Inr acc)"

text \<open>
  \<open>emailData.body.toLowerCase()\<close> and \<open>emailData.subject.toLowerCase()\<close> are the first two
  statements and have no guard; only \<open>links\<close> is tested before it is used.
\<close>

definition runLocalBasicScan :: "env \<Rightarrow> emailData \<Rightarrow> bool \<Rightarrow> error + analysisResult" where
  "runLocalBasicScan ev e isFallback =
     (case toLowerCase_call (body e) of
        Inl err \<Rightarrow> Inl err
      | Inr b \<Rightarrow>
     (case toLowerCase_call (subject e) of
        Inl err \<Rightarrow> Inl err
      | Inr s \<Rightarrow>
     (case link_block ev b s (links e) (keyword_scan b s) of
        Inl err \<Rightarrow> Inl err
      | Inr acc \<Rightarrow>
        (let conf = min (snd acc) 90;
             phishing = (conf \<ge> PHISHING_THRESHOLD)
         in Inr \<lparr> isPhishing = phishing,
                  confidence = conf,
                  indicators = fst acc,
                  recommendation = local_recommendation phishing conf isFallback \<rparr>))))"

section \<open>The key-value store (chrome.storage.local)\<close>

text \<open>
  The store is one object: a list of its keys with their values, each key once.
  \<open>storage_get\<close> reads one key (\<open>undefined\<close> when it is missing), \<open>storage_set\<close> writes
  one key, \<open>storage_remove\<close> deletes a list of keys, \<open>object_keys\<close> is \<open>Object.keys\<close>.
\<close>

type_synonym store = "(string \<times> jsval) list"

definition storage_get :: "store \<Rightarrow> string \<Rightarrow> jsval" where
  "storage_get st k = (case map_of st k of None \<Rightarrow> JUndefined | Some v \<Rightarrow> v)"

definition storage_set :: "store \<Rightarrow> string \<Rightarrow> jsval \<Rightarrow> store" where
  "storage_set st k v = AList.update k v st"

definition storage_remove :: "store \<Rightarrow> string list \<Rightarrow> store" where
  "storage_remove st ks = filter (\<lambda>kv. fst kv \<notin> set ks) st"

definition object_keys :: "store \<Rightarrow> string list" where
  "object_keys st = map fst st"

text \<open>
  The four settings read at the start of \<open>analyzeEmail\<close>. \<open>saveSettings\<close> (popup.js), the
  only writer of \<open>user_threshold\<close>, stores a number between 1 and 100; the threshold is
  therefore read as a number, and a stored value of another shape counts as missing.
  \<open>threshold_of\<close> is \<open>settings.user_threshold || 70\<close>.
\<close>

record settings =
  or_api_key :: jsval
  or_endpoint :: jsval
  or_model :: jsval
  user_threshold :: jsval

definition get_settings :: "store \<Rightarrow> settings" where
  "get_settings st =
     \<lparr> or_api_key = storage_get st ''or_api_key'',
       or_endpoint = storage_get st ''or_endpoint'',
       or_model = storage_get st ''or_model'',
       user_threshold = storage_get st ''user_threshold'' \<rparr>"

definition threshold_of :: "settings \<Rightarrow> int" where
  "threshold_of cfg = (case user_threshold cfg of JNum n \<Rightarrow> if n = 0 then 70 else n | _ \<Rightarrow> 70)"

definition model_of :: "settings \<Rightarrow> jsval" where
  "model_of cfg = or_else (or_model cfg) (JStr ''meta-llama/llama-3.2-3b-instruct:free'')"

section \<open>Retention (popup.js, cleanupOldResults)\<close>

definition analysis_prefix :: string where
  "analysis_prefix = ''analysis_''"

text \<open>
  \<open>Array.prototype.sort\<close> without a comparator orders strings by their code units, which
  is the lexicographic order of \<^typ>\<open>char list\<close>; the keys are distinct, so the sorted
  array is determined.
\<close>

definition analysisKeys :: "store \<Rightarrow> string list" where
  "analysisKeys st = rev (sort (filter (\<lambda>k. startsWith k analysis_prefix) (object_keys st)))"

definition cleanupOldResults :: "store \<Rightarrow> store" where
  "cleanupOldResults st =
     (if length (analysisKeys st) > 10
      then storage_remove st (drop 10 (analysisKeys st))
      else st)"

section \<open>Reconciliation (background.js, lines 235-249)\<close>

definition flagged_clause :: "int \<Rightarrow> int \<Rightarrow> string" where
  "flagged_clause c t =
     ''Flagged due to high confidence ('' @ show_int c @ ''%) exceeding threshold ('' @
     show_int t @ ''%). ''"

text \<open>
  Step 1 and step 2 of \<open>analyzeEmailWithOpenRouter\<close> on the validated reply, as one
  function of the result and the threshold. \<open>result.indicators\<close> is an array at this
  point, so \<open>result.indicators && result.indicators.length > 0\<close> is its being non-empty.
\<close>

definition reconcile :: "analysisResult \<Rightarrow> int \<Rightarrow> analysisResult" where
  "reconcile r t =
     (let r1 = (if length (indicators r) > 0
                then r\<lparr> isPhishing := True, confidence := max (confidence r) 50 \<rparr>
                else r)
      in if confidence r1 \<ge> t \<and> \<not> isPhishing r1
         then r1\<lparr> isPhishing := True,
                  recommendation := flagged_clause (confidence r1) t @ recommendation r1 \<rparr>
         else r1)"

section \<open>The remote scan (background.js, analyzeEmailWithOpenRouter)\<close>

text \<open>
  Property reads. \<open>get_prop v k\<close> is \<open>v.k\<close>: it throws on \<open>undefined\<close> and \<open>null\<close>, and
  gives \<open>undefined\<close> when the property is missing. The names read here (\<open>choices\<close>,
  \<open>message\<close>, \<open>content\<close>, \<open>error\<close> and the four result fields) are own properties of
  objects only. \<open>opt_prop v k\<close> is \<open>v?.k\<close>; \<open>index0 v\<close> is \<open>v[0]\<close>.
\<close>

fun get_prop :: "jsval \<Rightarrow> string \<Rightarrow> error + jsval" where
  "get_prop JUndefined k = Inl TypeError"
| "get_prop JNull k = Inl TypeError"
| "get_prop (JObj fs) k = Inr (case map_of fs k of None \<Rightarrow> JUndefined | Some v \<Rightarrow> v)"
| "get_prop v k = Inr JUndefined"

fun opt_prop :: "jsval \<Rightarrow> string \<Rightarrow> jsval" where
  "opt_prop (JObj fs) k = (case map_of fs k of None \<Rightarrow> JUndefined | Some v \<Rightarrow> v)"
| "opt_prop v k = JUndefined"

fun index0 :: "jsval \<Rightarrow> error + jsval" where
  "index0 JUndefined = Inl TypeError"
| "index0 JNull = Inl TypeError"
| "index0 (JArr xs) = Inr (case xs of [] \<Rightarrow> JUndefined | x # rest \<Rightarrow> x)"
| "index0 (JStr s) = Inr (case s of [] \<Rightarrow> JUndefined | c # rest \<Rightarrow> JStr [c])"
| "index0 (JObj fs) = Inr (case map_of fs ''0'' of None \<Rightarrow> JUndefined | Some v \<Rightarrow> v)"
| "index0 v = Inr JUndefined"

text \<open>
  White space of \<open>trim\<close> and of \<open>\s\<close> among the code units below 256: tab, line feed,
  vertical tab, form feed, carriage return, space and the no-break space.
\<close>

definition is_space :: "char \<Rightarrow> bool" where
  "is_space c = ((of_char c :: nat) \<in> {9, 10, 11, 12, 13, 32, 160})"

definition trim :: "string \<Rightarrow> string" where
  "trim s = rev (dropWhile is_space (rev (dropWhile is_space s)))"

text \<open>
  \<open>s.replace(/P\s*/g, '')\<close> for a literal \<open>P\<close>: every occurrence of \<open>P\<close>, found from
  left to right, goes together with the white space after it.
\<close>

function strip_fence :: "string \<Rightarrow> string \<Rightarrow> string" where
  "strip_fence pat [] = []"
| "strip_fence pat (c # cs) =
     (if pat \<noteq> [] \<and> startsWith (c # cs) pat
      then strip_fence pat (dropWhile is_space (drop (length pat) (c # cs)))
      else c # strip_fence pat cs)"
  by pat_completeness auto
termination
proof (relation "measure (\<lambda>(pat, s). length s)")
  show "wf (measure (\<lambda>(pat, s). length s))" by simp
next
  fix pat :: string and c :: char and cs :: string
  assume "pat \<noteq> [] \<and> startsWith (c # cs) pat"
  then obtain p ps where pat: "pat = p # ps" by (cases pat) auto
  have "length (dropWhile is_space (drop (length ps) cs)) \<le> length (drop (length ps) cs)"
    by (rule length_dropWhile_le)
  then show "((pat, dropWhile is_space (drop (length pat) (c # cs))), (pat, c # cs))
               \<in> measure (\<lambda>(pat, s). length s)"
    by (simp add: pat)
next
  fix pat :: string and c :: char and cs :: string
  show "((pat, cs), (pat, c # cs)) \<in> measure (\<lambda>(pat, s). length s)" by simp
qed

text \<open>
  \<open>s.match(/\{[\s\S]*\}/)\<close>: from the first opening brace to the last closing brace
  after it; no match when there is no such pair.
\<close>

definition match_object :: "string \<Rightarrow> string option" where
  "match_object s =
     (let s1 = dropWhile (\<lambda>c. c \<noteq> CHR ''{'') s;
          m = rev (dropWhile (\<lambda>c. c \<noteq> CHR ''}'') (rev s1))
      in if m = [] then None else Some m)"

text \<open>
  The branch \<open>if (!response.ok)\<close>: it always throws, either the TypeError of reading
  \<open>error\<close> from \<open>null\<close>, or the \<open>Error\<close> with the message of the reply or the status.
\<close>

definition not_ok_error :: "http_response \<Rightarrow> error" where
  "not_ok_error resp =
     (let errorData = (case json resp of None \<Rightarrow> JObj [] | Some d \<Rightarrow> d)
      in case get_prop errorData ''error'' of
           Inl err \<Rightarrow> err
         | Inr er \<Rightarrow>
             Error (or_else (opt_prop er ''message'')
                      (JStr (''API request failed: '' @ show_int (status resp)))))"

text \<open>\<open>data.choices[0]?.message?.content\<close>.\<close>

definition content_of :: "jsval \<Rightarrow> error + jsval" where
  "content_of data =
     bind (get_prop data ''choices'') (\<lambda>choices.
     bind (index0 choices) (\<lambda>c0.
     Inr (opt_prop (opt_prop c0 ''message'') ''content'')))"

text \<open>
  From the text of the reply to the validated result: trimming, removal of the code
  fences, the search for the object, \<open>JSON.parse\<close> and the check of the four fields.
  Properties of the parsed object other than these four are not carried along.
\<close>

definition extract_json :: "string \<Rightarrow> string option" where
  "extract_json content =
     match_object (strip_fence ''```'' (strip_fence ''```json'' (trim content)))"

text \<open>
  The structure check. Past it the four fields have the types tested, and the result is
  read off them.
\<close>

definition validate :: "jsval \<Rightarrow> error + analysisResult" where
  "validate result =
     bind (get_prop result ''isPhishing'') (\<lambda>p.
     bind (get_prop result ''confidence'') (\<lambda>c.
     bind (get_prop result ''indicators'') (\<lambda>i.
     bind (get_prop result ''recommendation'') (\<lambda>m.
       if typeof p \<noteq> ''boolean'' \<or> typeof c \<noteq> ''number'' \<or> \<not> isArray i \<or>
          typeof m \<noteq> ''string''
       then Inl (Error (JStr ''Invalid response structure from API''))
       else Inr \<lparr> isPhishing = bool_of p, confidence = num_of c, indicators = elems_of i,
                  recommendation = str_of m \<rparr>))))"

definition parse_reply :: "env \<Rightarrow> jsval \<Rightarrow> error + analysisResult" where
  "parse_reply ev content =
     (if \<not> truthy content then Inl (Error (JStr ''No response from API''))
      else case content of
        JStr c \<Rightarrow>
          (case extract_json c of
             None \<Rightarrow> Inl (Error (JStr ''Invalid response format from API. Expected JSON object.''))
           | Some js \<Rightarrow>
               (case JSON_parse ev js of
                  None \<Rightarrow> Inl SyntaxError
                | Some result \<Rightarrow> validate result))
      | other \<Rightarrow> Inl TypeError)"

text \<open>
  The four interpolations of the prompt, in their order: \<open>from\<close> and \<open>subject\<close> are
  converted to strings, \<open>body.substring(0, 2000)\<close> and \<open>links.slice(0, 10).join(', ')\<close>
  are method calls. \<open>join\<close> turns \<open>undefined\<close> and \<open>null\<close> into the empty string.
\<close>

definition join_elem :: "env \<Rightarrow> jsval \<Rightarrow> error + string" where
  "join_elem ev v = (case v of JUndefined \<Rightarrow> Inr [] | JNull \<Rightarrow> Inr [] | other \<Rightarrow> to_string ev v)"

fun join_elems :: "env \<Rightarrow> jsval list \<Rightarrow> error + string" where
  "join_elems ev [] = Inr []"
| "join_elems ev [x] = join_elem ev x"
| "join_elems ev (x # y # ys) =
     bind (join_elem ev x) (\<lambda>t. bind (join_elems ev (y # ys)) (\<lambda>rest. Inr (t @ '', '' @ rest)))"

definition slice_join_call :: "env \<Rightarrow> jsval \<Rightarrow> error + string" where
  "slice_join_call ev v =
     (case v of JArr xs \<Rightarrow> join_elems ev (take 10 xs) | other \<Rightarrow> Inl TypeError)"

definition prompt_parts :: "env \<Rightarrow> emailData \<Rightarrow> error + string list" where
  "prompt_parts ev e =
     bind (to_string ev (from_addr e)) (\<lambda>f.
     bind (to_string ev (subject e)) (\<lambda>s.
     bind (substring_call (body e) 2000) (\<lambda>b.
     bind (slice_join_call ev (links e)) (\<lambda>l.
       Inr [f, s, b, l]))))"

text \<open>
  The request up to the validated reply. The reply of the service is an input of the
  model, so the prompt matters only through the exceptions of building it.
\<close>

definition remote_reply :: "env \<Rightarrow> settings \<Rightarrow> emailData \<Rightarrow> error + analysisResult" where
  "remote_reply ev cfg e =
     (if \<not> truthy (or_api_key cfg)
      then Inl (Error (JStr ''API key not configured. Please set it in the extension popup.''))
      else bind (prompt_parts ev e) (\<lambda>prompt.
        (case fetch ev of
           None \<Rightarrow> Inl FetchRejected
         | Some resp \<Rightarrow>
             if \<not> ok resp then Inl (not_ok_error resp)
             else (case json resp of
                     None \<Rightarrow> Inl SyntaxError
                   | Some data \<Rightarrow> bind (content_of data) (parse_reply ev)))))"

text \<open>
  The key \<open>`analysis_${emailData.emailId || Date.now()}`\<close> and the record written under
  it.
\<close>

definition analysis_key :: "env \<Rightarrow> emailData \<Rightarrow> error + string" where
  "analysis_key ev e =
     bind (to_string ev (or_else (emailId e) (JNum (now_key ev)))) (\<lambda>i.
       Inr (analysis_prefix @ i))"

definition stored_analysis :: "env \<Rightarrow> settings \<Rightarrow> emailData \<Rightarrow> analysisResult \<Rightarrow> jsval" where
  "stored_analysis ev cfg e r =
     JObj [(''isPhishing'', JBool (isPhishing r)),
           (''confidence'', JNum (confidence r)),
           (''indicators'', JArr (indicators r)),
           (''recommendation'', JStr (recommendation r)),
           (''timestamp'', JNum (now_stamp ev)),
           (''emailData'', JObj [(''from'', from_addr e), (''subject'', subject e)]),
           (''settings'', JObj [(''model'', model_of cfg),
                                (''threshold'', JNum (threshold_of cfg))])]"

definition analyzeEmailWithOpenRouter ::
  "env \<Rightarrow> store \<Rightarrow> emailData \<Rightarrow> settings \<Rightarrow> error + (analysisResult \<times> store)" where
  "analyzeEmailWithOpenRouter ev st e cfg =
     bind (remote_reply ev cfg e) (\<lambda>result.
       let r = reconcile result (threshold_of cfg)
       in bind (analysis_key ev e) (\<lambda>k.
            Inr (r, storage_set st k (stored_analysis ev cfg e r))))"

section \<open>The router (background.js, analyzeEmail)\<close>

text \<open>
  The result is what the promise settles with, together with the store afterwards. The
  \<open>catch\<close> block runs the local scan in fallback mode; what that scan throws leaves
  \<open>analyzeEmail\<close>.
\<close>

definition analyzeEmail :: "env \<Rightarrow> store \<Rightarrow> emailData \<Rightarrow> (error + analysisResult) \<times> store" where
  "analyzeEmail ev st e =
     (let cfg = get_settings st
      in if \<not> truthy (or_api_key cfg)
         then (runLocalBasicScan ev e False, st)
         else case analyzeEmailWithOpenRouter ev st e cfg of
                Inr (result, st') \<Rightarrow> (Inr result, st')
              | Inl err \<Rightarrow> (runLocalBasicScan ev e True, st))"

section \<open>Notions used in the statements\<close>

text \<open>The keyword terms found in the lower-cased body \<open>b\<close> or subject \<open>s\<close>.\<close>

definition matched_keywords :: "string \<Rightarrow> string \<Rightarrow> string list" where
  "matched_keywords b s = filter (\<lambda>kw. includes_str b kw \<or> includes_str s kw) keyword_terms"

text \<open>
  The link block on an array \<open>ls\<close>, where \<open>some\<close> exists, and the accumulator of the
  local scan after the keyword loop and the link block, for the lower-cased body \<open>b\<close>,
  subject \<open>s\<close> and the elements \<open>ls\<close> of \<open>links\<close> (none when the block is skipped).
\<close>

definition link_acc :: "env \<Rightarrow> string \<Rightarrow> string \<Rightarrow> jsval list \<Rightarrow> scan_acc \<Rightarrow> scan_acc" where
  "link_acc ev b s ls acc =
     (let acc1 = (if snd acc < PHISHING_THRESHOLD
                  then (fst acc @ [JStr links_found], snd acc + 10)
                  else acc)
      in if list_ex (link_mismatch ev b s) ls
         then (fst acc1 @ [JStr link_mismatch_indicator], snd acc1 + 30)
         else acc1)"

definition final_acc :: "env \<Rightarrow> string \<Rightarrow> string \<Rightarrow> jsval list \<Rightarrow> scan_acc" where
  "final_acc ev b s ls =
     (if length ls > 0 then link_acc ev b s ls (keyword_scan b s) else keyword_scan b s)"

text \<open>
  The inputs on which the local scan does not throw: \<open>body\<close> and \<open>subject\<close> are strings,
  and \<open>links\<close> is an array or makes the guard \<open>links && links.length > 0\<close> false.
\<close>

definition well_formed :: "env \<Rightarrow> emailData \<Rightarrow> bool" where
  "well_formed ev e \<longleftrightarrow>
     typeof (body e) = ''string'' \<and> typeof (subject e) = ''string'' \<and>
     (isArray (links e) \<or> links_present ev (links e) = Inr False)"

text \<open>
  What every step of the scan keeps: no indicator and confidence 0, or some indicator and
  confidence at least 10.
\<close>

definition acc_ok :: "scan_acc \<Rightarrow> bool" where
  "acc_ok acc \<longleftrightarrow> (fst acc = [] \<and> snd acc = 0) \<or> (fst acc \<noteq> [] \<and> 10 \<le> snd acc)"

text \<open>Inputs for the examples.\<close>

definition host_of :: "jsval \<Rightarrow> string option" where
  "host_of l = (if l = JStr ''http://evil.xyz/login'' then Some ''evil.xyz'' else None)"

definition no_gt_zero :: "jsval \<Rightarrow> bool option" where
  "no_gt_zero v = None"

definition no_to_string :: "jsval \<Rightarrow> string option" where
  "no_to_string v = None"

definition plain_mail :: emailData where
  "plain_mail = \<lparr> from_addr = JStr ''ann@example.org'', subject = JStr ''Lunch'',
                  body = JStr ''See you at noon'', links = JArr [], emailId = JUndefined \<rparr>"

definition urgent_mail :: emailData where
  "urgent_mail = \<lparr> from_addr = JStr ''bob@example.org'', subject = JStr ''URGENT'',
                   body = JStr ''Please call me back'', links = JArr [], emailId = JUndefined \<rparr>"

definition no_body_mail :: emailData where
  "no_body_mail = \<lparr> from_addr = JStr ''bob@example.org'', subject = JStr ''Hello'',
                    body = JUndefined, links = JArr [], emailId = JUndefined \<rparr>"

definition no_subject_mail :: emailData where
  "no_subject_mail = \<lparr> from_addr = JStr ''bob@example.org'', subject = JUndefined,
                       body = JStr ''Hello'', links = JArr [], emailId = JUndefined \<rparr>"

definition string_links_mail :: emailData where
  "string_links_mail = \<lparr> from_addr = JStr ''bob@example.org'', subject = JStr ''s'',
                         body = JStr ''b'', links = JStr ''http://a.b'', emailId = JUndefined \<rparr>"

definition three_keyword_mail :: emailData where
  "three_keyword_mail =
     \<lparr> from_addr = JStr ''support@example.org'', subject = JStr ''URGENT: payment failed'',
       body = JStr ''Your password expired.'', links = JArr [JStr ''http://evil.xyz/login''],
       emailId = JStr ''m1'' \<rparr>"

text \<open>The keys of the store that start with \<open>analysis_\<close>, in the order of the store.\<close>

definition stored_analysis_keys :: "store \<Rightarrow> string list" where
  "stored_analysis_keys st = filter (\<lambda>k. startsWith k analysis_prefix) (object_keys st)"

definition store15 :: store where
  "store15 =
     [(''or_api_key'', JStr ''sk-or-v1-abc''),
      (''analysis_1'', JNum 1), (''analysis_2'', JNum 2), (''analysis_3'', JNum 3),
      (''analysis_4'', JNum 4), (''analysis_5'', JNum 5), (''analysis_6'', JNum 6),
      (''analysis_7'', JNum 7), (''analysis_8'', JNum 8), (''analysis_9'', JNum 9),
      (''analysis_10'', JNum 10), (''analysis_11'', JNum 11), (''analysis_12'', JNum 12),
      (''analysis_13'', JNum 13), (''analysis_14'', JNum 14), (''analysis_15'', JNum 15),
      (''user_threshold'', JNum 70)]"

text \<open>
  \<open>from_remote ev st e\<close>: a credential is configured and the remote scan succeeds, so
  what \<open>analyzeEmail\<close> returns is the remote scanner's result.
\<close>

definition from_remote :: "env \<Rightarrow> store \<Rightarrow> emailData \<Rightarrow> bool" where
  "from_remote ev st e \<longleftrightarrow>
     truthy (or_api_key (get_settings st)) \<and>
     \<not> isl (analyzeEmailWithOpenRouter ev st e (get_settings st))"

definition no_parse :: "string \<Rightarrow> jsval option" where
  "no_parse s = None"

definition keyed_store :: store where
  "keyed_store = [(''or_api_key'', JStr ''sk-or-v1-abc''), (''user_threshold'', JNum 70)]"

text \<open>An environment without network, and one whose service answers 429.\<close>

definition ev_offline :: env where
  "ev_offline = \<lparr> url_hostname = host_of, gt_zero_coerced = no_gt_zero,
                  to_string_coerced = no_to_string, fetch = None, JSON_parse = no_parse,
                  now_key = 1730541600000, now_stamp = 1730541600002 \<rparr>"

definition ev_rate_limited :: env where
  "ev_rate_limited =
     \<lparr> url_hostname = host_of, gt_zero_coerced = no_gt_zero,
       to_string_coerced = no_to_string,
       fetch = Some \<lparr> ok = False, status = 429,
                      json = Some (JObj [(''error'', JObj [(''message'', JStr ''Rate limit exceeded'')])]) \<rparr>,
       JSON_parse = no_parse,
       now_key = 1730541600000, now_stamp = 1730541600002 \<rparr>"

text \<open>
  An environment whose service answers with a fenced object that says "safe" although it
  lists an indicator.
\<close>

definition reply_text :: string where
  "reply_text = ''{\"isPhishing\": false, \"confidence\": 20, \"indicators\": [\"odd sender\"], \"recommendation\": \"Probably fine.\"}''"

definition reply_object :: jsval where
  "reply_object =
     JObj [(''isPhishing'', JBool False), (''confidence'', JNum 20),
           (''indicators'', JArr [JStr ''odd sender'']),
           (''recommendation'', JStr ''Probably fine.'')]"

definition reply_parse :: "string \<Rightarrow> jsval option" where
  "reply_parse s = (if s = reply_text then Some reply_object else None)"

definition ev_reply :: env where
  "ev_reply =
     \<lparr> url_hostname = host_of, gt_zero_coerced = no_gt_zero,
       to_string_coerced = no_to_string,
       fetch = Some \<lparr> ok = True, status = 200,
                      json = Some (JObj [(''choices'',
                               JArr [JObj [(''message'',
                                 JObj [(''role'', JStr ''assistant''),
                                       (''content'',
                                        JStr (''```json'' @ [CHR 0x0A] @ reply_text @ [CHR 0x0A] @ ''```''))])]])]) \<rparr>,
       JSON_parse = reply_parse,
       now_key = 1730541600000, now_stamp = 1730541600002 \<rparr>"

definition reply_result :: analysisResult where
  "reply_result = \<lparr> isPhishing = True, confidence = 50, indicators = [JStr ''odd sender''],
                    recommendation = ''Probably fine.'' \<rparr>"

definition urgent_result :: analysisResult where
  "urgent_result = \<lparr> isPhishing = False, confidence = 15,
                     indicators = [JStr ''Keyword detected: \"urgent\"''],
                     recommendation = cautious_msg \<rparr>"

definition store15_no_key :: store where
  "store15_no_key = (''or_api_key'', JStr []) # tl store15"

section \<open>Properties of the local scan\<close>

lemma startsWith_prefix: "startsWith s p \<longleftrightarrow> prefix p s"
  by (induction s p rule: startsWith.induct) auto

lemma includes_sublist: "includes_str s t \<longleftrightarrow> sublist t s"
proof (induction s)
  case Nil
  then show ?case by simp
next
  case (Cons c s)
  then show ?case
    by (cases t) (simp_all add: startsWith_prefix sublist_Cons_right)
qed

lemma fold_keyword_step:
  "fold (keyword_step b s) kws acc =
     (fst acc @ map (\<lambda>kw. JStr (keyword_indicator kw))
                  (filter (\<lambda>kw. includes_str b kw \<or> includes_str s kw) kws),
      snd acc + 15 * int (length (filter (\<lambda>kw. includes_str b kw \<or> includes_str s kw) kws)))"
  by (induction kws arbitrary: acc) (auto simp: keyword_step_def)

lemma keyword_scan_eq:
  "keyword_scan b s =
     (map (\<lambda>kw. JStr (keyword_indicator kw)) (matched_keywords b s),
      15 * int (length (matched_keywords b s)))"
  by (simp add: keyword_scan_def matched_keywords_def fold_keyword_step)

lemma acc_ok_keyword_scan: "acc_ok (keyword_scan b s)"
  by (cases "matched_keywords b s") (simp_all add: keyword_scan_eq acc_ok_def)

lemma acc_ok_link_acc: "acc_ok acc \<Longrightarrow> acc_ok (link_acc ev b s ls acc)"
  by (auto simp: acc_ok_def link_acc_def Let_def PHISHING_THRESHOLD_def)

lemma acc_ok_final: "acc_ok (final_acc ev b s ls)"
  by (simp add: final_acc_def acc_ok_keyword_scan acc_ok_link_acc)

lemma typeof_string: "typeof v = ''string'' \<longleftrightarrow> (\<exists>s. v = JStr s)"
  by (cases v) simp_all

lemma toLowerCase_call_cases:
  "(\<exists>s. v = JStr s \<and> toLowerCase_call v = Inr (toLowerCase s)) \<or>
   (typeof v \<noteq> ''string'' \<and> toLowerCase_call v = Inl TypeError)"
  by (cases v) (simp_all add: toLowerCase_call_def)

lemma link_scan_array: "link_scan ev b s (JArr ls) acc = Inr (link_acc ev b s ls acc)"
  by (simp add: link_scan_def link_acc_def some_call_def bind_def Let_def)

lemma link_scan_not_array: "\<not> isArray l \<Longrightarrow> link_scan ev b s l acc = Inl TypeError"
  by (cases l) (simp_all add: link_scan_def some_call_def bind_def Let_def)

lemma links_present_array: "links_present ev (JArr ls) = Inr (ls \<noteq> [])"
  by (simp add: links_present_def bind_def gt_zero_def)

lemma gt_zero_Inl: "gt_zero ev v = Inl err \<Longrightarrow> err = TypeError"
  by (cases v) (auto simp: gt_zero_def split: option.splits)

lemma links_present_Inl: "links_present ev l = Inl err \<Longrightarrow> err = TypeError"
  by (cases l) (auto simp: links_present_def bind_def dest: gt_zero_Inl split: if_splits)

text \<open>The link block returns exactly on an array or a failed guard; otherwise it throws.\<close>

lemma link_block_ok:
  assumes "isArray l \<or> links_present ev l = Inr False"
  shows "link_block ev b s l acc =
           Inr (if length (elems_of l) > 0 then link_acc ev b s (elems_of l) acc else acc)"
proof (cases l)
  case (JArr ls)
  then show ?thesis
    by (simp add: link_block_def links_present_array link_scan_array bind_def)
qed (use assms in \<open>auto simp: link_block_def bind_def\<close>)

lemma link_block_bad:
  assumes "\<not> (isArray l \<or> links_present ev l = Inr False)"
  shows "link_block ev b s l acc = Inl TypeError"
proof (cases "links_present ev l")
  case (Inl err)
  then show ?thesis
    using links_present_Inl [OF Inl] by (simp add: link_block_def bind_def)
next
  case (Inr p)
  with assms have "p" and "\<not> isArray l" by auto
  then show ?thesis
    using Inr by (simp add: link_block_def bind_def link_scan_not_array)
qed

lemma runLocalBasicScan_ok:
  assumes "body e = JStr b0" and "subject e = JStr s0"
    and "isArray (links e) \<or> links_present ev (links e) = Inr False"
  shows "runLocalBasicScan ev e fb =
     Inr \<lparr> isPhishing =
             (min (snd (final_acc ev (toLowerCase b0) (toLowerCase s0) (elems_of (links e)))) 90
                \<ge> PHISHING_THRESHOLD),
           confidence = min (snd (final_acc ev (toLowerCase b0) (toLowerCase s0) (elems_of (links e)))) 90,
           indicators = fst (final_acc ev (toLowerCase b0) (toLowerCase s0) (elems_of (links e))),
           recommendation =
             local_recommendation
               (min (snd (final_acc ev (toLowerCase b0) (toLowerCase s0) (elems_of (links e)))) 90
                  \<ge> PHISHING_THRESHOLD)
               (min (snd (final_acc ev (toLowerCase b0) (toLowerCase s0) (elems_of (links e)))) 90)
               fb \<rparr>"
  by (simp add: runLocalBasicScan_def toLowerCase_call_def assms(1,2) link_block_ok [OF assms(3)]
        bind_def final_acc_def Let_def)

lemma runLocalBasicScan_bad:
  assumes "\<not> well_formed ev e"
  shows "runLocalBasicScan ev e fb = Inl TypeError"
proof (cases "typeof (body e) = ''string'' \<and> typeof (subject e) = ''string''")
  case True
  then obtain b0 s0 where "body e = JStr b0" "subject e = JStr s0"
    by (auto simp: typeof_string)
  moreover have "\<not> (isArray (links e) \<or> links_present ev (links e) = Inr False)"
    using assms True by (simp add: well_formed_def)
  ultimately show ?thesis
    by (simp add: runLocalBasicScan_def toLowerCase_call_def bind_def link_block_bad)
next
  case False
  then show ?thesis
    using toLowerCase_call_cases [of "body e"] toLowerCase_call_cases [of "subject e"]
    by (auto simp: runLocalBasicScan_def bind_def)
qed

lemma runLocalBasicScan_Inr:
  assumes "runLocalBasicScan ev e fb = Inr r"
  obtains b0 s0 where "body e = JStr b0" "subject e = JStr s0" "well_formed ev e"
    "indicators r = fst (final_acc ev (toLowerCase b0) (toLowerCase s0) (elems_of (links e)))"
    "confidence r = min (snd (final_acc ev (toLowerCase b0) (toLowerCase s0) (elems_of (links e)))) 90"
    "isPhishing r = (confidence r \<ge> PHISHING_THRESHOLD)"
    "recommendation r = local_recommendation (isPhishing r) (confidence r) fb"
proof -
  have wf: "well_formed ev e"
    using assms runLocalBasicScan_bad [of ev e fb] by auto
  then obtain b0 s0 where b: "body e = JStr b0" and s: "subject e = JStr s0"
    by (auto simp: well_formed_def typeof_string)
  have l: "isArray (links e) \<or> links_present ev (links e) = Inr False"
    using wf by (simp add: well_formed_def)
  from assms runLocalBasicScan_ok [OF b s l, of fb] that [OF b s wf] show ?thesis
    by auto
qed

lemma msgs_distinct:
  "safe_msg \<noteq> cautious_msg" "safe_msg \<noteq> phishing_msg" "cautious_msg \<noteq> phishing_msg"
  by (simp_all add: safe_msg_def cautious_msg_def phishing_msg_def)

lemma local_result_facts:
  assumes "runLocalBasicScan ev e fb = Inr r"
  shows "0 \<le> confidence r" "confidence r \<le> 90"
    "isPhishing r \<longleftrightarrow> 45 \<le> confidence r"
    "confidence r = 0 \<longleftrightarrow> indicators r = []"
    "indicators r \<noteq> [] \<Longrightarrow> 10 \<le> confidence r"
proof -
  from assms obtain b0 s0 where
    i: "indicators r = fst (final_acc ev (toLowerCase b0) (toLowerCase s0) (elems_of (links e)))" and
    c: "confidence r = min (snd (final_acc ev (toLowerCase b0) (toLowerCase s0) (elems_of (links e)))) 90" and
    p: "isPhishing r = (confidence r \<ge> PHISHING_THRESHOLD)"
    by (rule runLocalBasicScan_Inr)
  have ok: "acc_ok (final_acc ev (toLowerCase b0) (toLowerCase s0) (elems_of (links e)))"
    by (rule acc_ok_final)
  show "0 \<le> confidence r" using ok c by (auto simp: acc_ok_def)
  show "confidence r \<le> 90" using c by simp
  show "isPhishing r \<longleftrightarrow> 45 \<le> confidence r" using p by (simp add: PHISHING_THRESHOLD_def)
  show "confidence r = 0 \<longleftrightarrow> indicators r = []" using ok c i by (auto simp: acc_ok_def)
  show "indicators r \<noteq> [] \<Longrightarrow> 10 \<le> confidence r" using ok c i by (auto simp: acc_ok_def)
qed

text \<open>
  C8. For every input on which the local scan returns, the confidence it returns is
  between 0 and 90, so it is never 100.
\<close>

theorem local_confidence_range:
  assumes "runLocalBasicScan ev e fb = Inr r"
  shows "0 \<le> confidence r \<and> confidence r \<le> 90 \<and> confidence r \<noteq> 100"
  using local_result_facts(1,2) [OF assms] by simp

theorem local_confidence_range_witness:
  "runLocalBasicScan ev_offline three_keyword_mail False =
     Inr \<lparr> isPhishing = True, confidence = 75,
           indicators = [JStr (keyword_indicator ''urgent''),
                         JStr (keyword_indicator ''password expired''),
                         JStr (keyword_indicator ''payment failed''),
                         JStr link_mismatch_indicator],
           recommendation = phishing_msg \<rparr> \<and>
   (0::int) \<le> 75 \<and> (75::int) \<le> 90"
proof -
  have h: "runLocalBasicScan ev_offline three_keyword_mail False =
     Inr \<lparr> isPhishing = True, confidence = 75,
           indicators = [JStr (keyword_indicator ''urgent''),
                         JStr (keyword_indicator ''password expired''),
                         JStr (keyword_indicator ''payment failed''),
                         JStr link_mismatch_indicator],
           recommendation = phishing_msg \<rparr>"
    by code_simp
  show ?thesis using h local_confidence_range [OF h] by simp
qed

text \<open>
  C10. The local scan returns confidence 0 exactly when it returns no indicator, and the
  plain safe recommendation (after the failure notice, in fallback mode) exactly when it
  returns no indicator.
\<close>

theorem local_zero_iff_no_indicators:
  assumes "runLocalBasicScan ev e fb = Inr r"
  shows "(confidence r = 0 \<longleftrightarrow> indicators r = []) \<and>
         (recommendation r = (if fb then fallback_notice @ safe_msg else safe_msg)
            \<longleftrightarrow> indicators r = [])"
proof -
  from assms obtain b0 s0 where
    m: "recommendation r = local_recommendation (isPhishing r) (confidence r) fb"
    by (rule runLocalBasicScan_Inr)
  have nonneg: "0 \<le> confidence r" and p: "isPhishing r \<longleftrightarrow> 45 \<le> confidence r"
    and zero: "confidence r = 0 \<longleftrightarrow> indicators r = []"
    using local_result_facts [OF assms] by blast+
  have "recommendation r = (if fb then fallback_notice @ safe_msg else safe_msg)
          \<longleftrightarrow> confidence r = 0"
    using nonneg msgs_distinct by (auto simp: m p local_recommendation_def)
  with zero show ?thesis by simp
qed

theorem local_zero_iff_no_indicators_witness:
  "runLocalBasicScan ev_offline plain_mail False =
     Inr \<lparr> isPhishing = False, confidence = 0, indicators = [], recommendation = safe_msg \<rparr> \<and>
   runLocalBasicScan ev_offline urgent_mail False =
     Inr \<lparr> isPhishing = False, confidence = 15,
           indicators = [JStr (keyword_indicator ''urgent'')],
           recommendation = cautious_msg \<rparr> \<and>
   safe_msg \<noteq> cautious_msg"
proof -
  have h: "runLocalBasicScan ev_offline plain_mail False =
     Inr \<lparr> isPhishing = False, confidence = 0, indicators = [], recommendation = safe_msg \<rparr>"
    by code_simp
  have k: "runLocalBasicScan ev_offline urgent_mail False =
     Inr \<lparr> isPhishing = False, confidence = 15,
           indicators = [JStr (keyword_indicator ''urgent'')],
           recommendation = cautious_msg \<rparr>"
    by code_simp
  show ?thesis
    using h k local_zero_iff_no_indicators [OF h] local_zero_iff_no_indicators [OF k]
    by simp
qed

lemma link_block_skip:
  "link_block ev b s JUndefined acc = Inr acc" "link_block ev b s (JArr []) acc = Inr acc"
  by (simp_all add: link_block_def links_present_def bind_def gt_zero_def)

lemma well_formed_plain:
  "typeof (body e) = ''string'' \<Longrightarrow> typeof (subject e) = ''string'' \<Longrightarrow>
   \<not> truthy (links e) \<or> isArray (links e) \<or> typeof (links e) = ''number'' \<or>
   typeof (links e) = ''boolean'' \<Longrightarrow> well_formed ev e"
  by (cases "links e") (auto simp: well_formed_def links_present_def bind_def gt_zero_def)

lemma not_well_formed_string_links:
  "links e = JStr (c # cs) \<Longrightarrow> \<not> well_formed ev e"
  by (simp add: well_formed_def links_present_def bind_def gt_zero_def)

text \<open>
  C2, as the code has it. The local scan returns exactly on the inputs whose \<open>body\<close> and
  \<open>subject\<close> are strings and whose \<open>links\<close> is an array or makes the guard
  \<open>links && links.length > 0\<close> false; on every other input it throws a TypeError. The
  guard is false for a missing, null or otherwise falsy \<open>links\<close> and for a number or a
  boolean; a non-empty string passes it and then has no \<open>some\<close>. A missing \<open>links\<close>
  gives the result of an empty array.
\<close>

theorem local_scan_returns_iff:
  "((\<exists>r. runLocalBasicScan ev e fb = Inr r) \<longleftrightarrow> well_formed ev e) \<and>
   (\<not> well_formed ev e \<longrightarrow> runLocalBasicScan ev e fb = Inl TypeError) \<and>
   (typeof (body e) = ''string'' \<and> typeof (subject e) = ''string'' \<and>
      (\<not> truthy (links e) \<or> isArray (links e) \<or> typeof (links e) = ''number'' \<or>
       typeof (links e) = ''boolean'') \<longrightarrow> well_formed ev e) \<and>
   (typeof (body e) \<noteq> ''string'' \<or> typeof (subject e) \<noteq> ''string'' \<or>
      (\<exists>c cs. links e = JStr (c # cs)) \<longrightarrow> \<not> well_formed ev e) \<and>
   runLocalBasicScan ev (e\<lparr>links := JUndefined\<rparr>) fb = runLocalBasicScan ev (e\<lparr>links := JArr []\<rparr>) fb"
proof -
  have a: "(\<exists>r. runLocalBasicScan ev e fb = Inr r) \<longleftrightarrow> well_formed ev e"
  proof
    assume "\<exists>r. runLocalBasicScan ev e fb = Inr r"
    then show "well_formed ev e" by (auto elim: runLocalBasicScan_Inr)
  next
    assume wf: "well_formed ev e"
    then obtain b0 s0 where "body e = JStr b0" "subject e = JStr s0"
      by (auto simp: well_formed_def typeof_string)
    moreover have "isArray (links e) \<or> links_present ev (links e) = Inr False"
      using wf by (simp add: well_formed_def)
    ultimately show "\<exists>r. runLocalBasicScan ev e fb = Inr r"
      using runLocalBasicScan_ok by blast
  qed
  have b: "\<not> well_formed ev e \<longrightarrow> runLocalBasicScan ev e fb = Inl TypeError"
    by (simp add: runLocalBasicScan_bad)
  have c: "typeof (body e) = ''string'' \<and> typeof (subject e) = ''string'' \<and>
      (\<not> truthy (links e) \<or> isArray (links e) \<or> typeof (links e) = ''number'' \<or>
       typeof (links e) = ''boolean'') \<longrightarrow> well_formed ev e"
    using well_formed_plain by blast
  have d: "typeof (body e) \<noteq> ''string'' \<or> typeof (subject e) \<noteq> ''string'' \<or>
      (\<exists>c cs. links e = JStr (c # cs)) \<longrightarrow> \<not> well_formed ev e"
    using not_well_formed_string_links by (auto simp: well_formed_def)
  have f: "runLocalBasicScan ev (e\<lparr>links := JUndefined\<rparr>) fb
             = runLocalBasicScan ev (e\<lparr>links := JArr []\<rparr>) fb"
    by (simp add: runLocalBasicScan_def link_block_skip split: sum.splits)
  from a b c d f show ?thesis by blast
qed

theorem local_scan_returns_iff_witness:
  "well_formed ev_offline plain_mail \<and>
   (\<exists>r. runLocalBasicScan ev_offline plain_mail True = Inr r) \<and>
   \<not> well_formed ev_offline string_links_mail \<and>
   runLocalBasicScan ev_offline string_links_mail True = Inl TypeError \<and>
   \<not> well_formed ev_offline no_subject_mail \<and>
   runLocalBasicScan ev_offline no_subject_mail True = Inl TypeError"
proof -
  have p: "well_formed ev_offline plain_mail" by code_simp
  have l: "\<not> well_formed ev_offline string_links_mail" by code_simp
  have s: "\<not> well_formed ev_offline no_subject_mail" by code_simp
  show ?thesis
    using p l s local_scan_returns_iff [of ev_offline plain_mail True]
      local_scan_returns_iff [of ev_offline string_links_mail True]
      local_scan_returns_iff [of ev_offline no_subject_mail True]
    by blast
qed

text \<open>
  C2, as stated, fails: on an email object without a \<open>body\<close> the local scan throws.
\<close>

theorem local_scan_missing_body_counterexample:
  "runLocalBasicScan ev_offline no_body_mail False = Inl TypeError"
  by code_simp









section \<open>Properties of the reconciliation\<close>

lemma reconcile_indicators [simp]: "indicators (reconcile r t) = indicators r"
  by (simp add: reconcile_def Let_def)

lemma reconcile_invariant:
  "indicators (reconcile r t) \<noteq> [] \<Longrightarrow> isPhishing (reconcile r t) \<and> 50 \<le> confidence (reconcile r t)"
  "t \<le> confidence (reconcile r t) \<Longrightarrow> isPhishing (reconcile r t)"
  by (auto simp: reconcile_def Let_def)

text \<open>
  C3. Reconciling twice with the same threshold gives the same result as reconciling
  once.
\<close>

theorem reconcile_idempotent: "reconcile (reconcile r t) t = reconcile r t"
  by (simp add: reconcile_def Let_def)

theorem reconcile_idempotent_witness:
  "reconcile (reconcile \<lparr> isPhishing = False, confidence = 20, indicators = [JStr ''odd sender''],
                          recommendation = ''Probably fine.'' \<rparr> 70) 70 = reply_result"
proof -
  have "reconcile \<lparr> isPhishing = False, confidence = 20, indicators = [JStr ''odd sender''],
                    recommendation = ''Probably fine.'' \<rparr> 70 = reply_result"
    by (simp add: reconcile_def reply_result_def)
  then show ?thesis
    using reconcile_idempotent [of "\<lparr> isPhishing = False, confidence = 20,
        indicators = [JStr ''odd sender''], recommendation = ''Probably fine.'' \<rparr>" 70]
    by simp
qed

text \<open>
  C4. If the confidence of \<open>r\<close> is at least the threshold, the reconciled result is
  flagged. The threshold rule is the one that flips the flag exactly when \<open>r\<close> is not
  flagged, has no indicator and has confidence at least the threshold; the recommendation
  then gets the clause with the confidence and the threshold in front, and in every other
  case it is unchanged.
\<close>

theorem reconcile_threshold:
  "(t \<le> confidence r \<longrightarrow> isPhishing (reconcile r t)) \<and>
   (\<not> isPhishing r \<and> indicators r = [] \<and> t \<le> confidence r \<longrightarrow>
      isPhishing (reconcile r t) \<and>
      recommendation (reconcile r t) =
        ''Flagged due to high confidence ('' @ show_int (confidence r) @
        ''%) exceeding threshold ('' @ show_int t @ ''%). '' @ recommendation r) \<and>
   (\<not> (\<not> isPhishing r \<and> indicators r = [] \<and> t \<le> confidence r) \<longrightarrow>
      recommendation (reconcile r t) = recommendation r)"
  by (auto simp: reconcile_def Let_def flagged_clause_def)

theorem reconcile_threshold_witness:
  "(70::int) \<le> confidence \<lparr> isPhishing = False, confidence = 80, indicators = [],
                             recommendation = ''Looks fine.'' \<rparr> \<and>
   reconcile \<lparr> isPhishing = False, confidence = 80, indicators = [],
               recommendation = ''Looks fine.'' \<rparr> 70 =
     \<lparr> isPhishing = True, confidence = 80, indicators = [],
       recommendation =
         ''Flagged due to high confidence (80%) exceeding threshold (70%). Looks fine.'' \<rparr>"
proof -
  have s80: "show_int 80 = ''80''" and s70: "show_int 70 = ''70''"
    by code_simp+
  have e: "reconcile \<lparr> isPhishing = False, confidence = 80, indicators = [],
               recommendation = ''Looks fine.'' \<rparr> 70 =
     \<lparr> isPhishing = True, confidence = 80, indicators = [],
       recommendation = recommendation (reconcile \<lparr> isPhishing = False, confidence = 80,
          indicators = [], recommendation = ''Looks fine.'' \<rparr> 70) \<rparr>"
    by (simp add: reconcile_def)
  show ?thesis
    using reconcile_threshold [of 70 "\<lparr> isPhishing = False, confidence = 80, indicators = [],
                             recommendation = ''Looks fine.'' \<rparr>"] s80 s70 e
    by simp
qed

section \<open>Properties of the retention\<close>

lemma object_keys_storage_remove:
  "object_keys (storage_remove st ks) = filter (\<lambda>k. k \<notin> set ks) (object_keys st)"
  by (simp add: object_keys_def storage_remove_def filter_map comp_def)

lemma map_of_storage_remove:
  "map_of (storage_remove st ks) k = (if k \<in> set ks then None else map_of st k)"
  by (simp add: storage_remove_def map_of_filter [where P = "\<lambda>k. k \<notin> set ks"] restrict_map_def)

lemma analysisKeys_facts:
  assumes "distinct (object_keys st)"
  shows "distinct (analysisKeys st)"
    and "set (analysisKeys st) = set (stored_analysis_keys st)"
    and "length (analysisKeys st) = length (stored_analysis_keys st)"
    and "sorted_wrt (\<lambda>x y. y < x) (analysisKeys st)"
proof -
  have d: "distinct (stored_analysis_keys st)"
    using assms by (simp add: stored_analysis_keys_def)
  show "distinct (analysisKeys st)"
    using d by (simp add: analysisKeys_def stored_analysis_keys_def)
  show "set (analysisKeys st) = set (stored_analysis_keys st)"
    by (simp add: analysisKeys_def stored_analysis_keys_def)
  show "length (analysisKeys st) = length (stored_analysis_keys st)"
    by (simp add: analysisKeys_def stored_analysis_keys_def)
  have "sorted_wrt (<) (sort (stored_analysis_keys st))"
    using d by (simp add: strict_sorted_iff)
  then show "sorted_wrt (\<lambda>x y. y < x) (analysisKeys st)"
    by (simp add: analysisKeys_def stored_analysis_keys_def sorted_wrt_rev)
qed

lemma cleanup_general:
  assumes dist: "distinct (object_keys st)" and many: "10 < length (stored_analysis_keys st)"
  shows "cleanupOldResults st = storage_remove st (drop 10 (analysisKeys st))"
    and "set (stored_analysis_keys (cleanupOldResults st)) = set (take 10 (analysisKeys st))"
    and "length (stored_analysis_keys (cleanupOldResults st)) = 10"
    and "\<forall>k \<in> set (take 10 (analysisKeys st)). \<forall>k' \<in> set (drop 10 (analysisKeys st)). k' < k"
proof -
  let ?rs = "analysisKeys st"
  note f = analysisKeys_facts [OF dist]
  have len: "10 < length ?rs" using many f(3) by simp
  show c: "cleanupOldResults st = storage_remove st (drop 10 ?rs)"
    using len by (simp add: cleanupOldResults_def)
  have split: "take 10 ?rs @ drop 10 ?rs = ?rs" by simp
  have disj: "set (take 10 ?rs) \<inter> set (drop 10 ?rs) = {}"
    using f(1) by (rule set_take_disj_set_drop_if_distinct) simp
  have un: "set (take 10 ?rs) \<union> set (drop 10 ?rs) = set (stored_analysis_keys st)"
    using f(2) set_append [of "take 10 ?rs" "drop 10 ?rs"] by simp
  have keys: "stored_analysis_keys (cleanupOldResults st)
                = filter (\<lambda>k. k \<notin> set (drop 10 ?rs)) (stored_analysis_keys st)"
    by (auto simp: c stored_analysis_keys_def object_keys_storage_remove intro: filter_cong)
  show s: "set (stored_analysis_keys (cleanupOldResults st)) = set (take 10 ?rs)"
    using disj un by (auto simp: keys)
  have "distinct (stored_analysis_keys st)"
    using dist by (simp add: stored_analysis_keys_def)
  then have "distinct (stored_analysis_keys (cleanupOldResults st))"
    unfolding keys by simp
  then have "length (stored_analysis_keys (cleanupOldResults st))
               = card (set (stored_analysis_keys (cleanupOldResults st)))"
    by (simp add: distinct_card)
  also have "\<dots> = length (take 10 ?rs)"
    using f(1) by (simp only: s distinct_card [OF distinct_take])
  finally show "length (stored_analysis_keys (cleanupOldResults st)) = 10"
    using len by simp
  have "sorted_wrt (\<lambda>x y. y < x) (take 10 ?rs @ drop 10 ?rs)"
    using f(4) by simp
  then show "\<forall>k \<in> set (take 10 ?rs). \<forall>k' \<in> set (drop 10 ?rs). k' < k"
    unfolding sorted_wrt_append by blast
qed

text \<open>
  C9. On a store with 15 keys that start with \<open>analysis_\<close>, \<open>cleanupOldResults\<close> leaves
  exactly 10 of them; every key it removes is lexically below every key it keeps; the
  records it keeps and all keys without the prefix have their values as before, in the
  same order, and the removed keys are gone.
\<close>

theorem cleanup_keeps_ten_greatest:
  assumes "distinct (object_keys st)" and "length (stored_analysis_keys st) = 15"
  shows "length (stored_analysis_keys (cleanupOldResults st)) = 10 \<and>
         set (stored_analysis_keys (cleanupOldResults st)) \<subseteq> set (stored_analysis_keys st) \<and>
         (\<forall>k \<in> set (stored_analysis_keys (cleanupOldResults st)).
            \<forall>k' \<in> set (stored_analysis_keys st) - set (stored_analysis_keys (cleanupOldResults st)).
              k' < k) \<and>
         (\<forall>k. k \<in> set (stored_analysis_keys (cleanupOldResults st)) \<or> \<not> startsWith k analysis_prefix
            \<longrightarrow> map_of (cleanupOldResults st) k = map_of st k) \<and>
         (\<forall>k \<in> set (stored_analysis_keys st) - set (stored_analysis_keys (cleanupOldResults st)).
            map_of (cleanupOldResults st) k = None) \<and>
         filter (\<lambda>kv. \<not> startsWith (fst kv) analysis_prefix) (cleanupOldResults st)
           = filter (\<lambda>kv. \<not> startsWith (fst kv) analysis_prefix) st"
proof -
  let ?rs = "analysisKeys st" and ?st' = "cleanupOldResults st"
  have many: "10 < length (stored_analysis_keys st)" using assms(2) by simp
  note g = cleanup_general [OF assms(1) many]
  note f = analysisKeys_facts [OF assms(1)]
  have split: "set (take 10 ?rs) \<union> set (drop 10 ?rs) = set (stored_analysis_keys st)"
    using f(2) set_append [of "take 10 ?rs" "drop 10 ?rs"] by simp
  have disj: "set (take 10 ?rs) \<inter> set (drop 10 ?rs) = {}"
    using f(1) by (rule set_take_disj_set_drop_if_distinct) simp
  have removed: "set (stored_analysis_keys st) - set (stored_analysis_keys ?st') = set (drop 10 ?rs)"
    using split disj by (auto simp: g(2))
  have pre: "startsWith k analysis_prefix" if "k \<in> set (drop 10 ?rs)" for k
    using that split by (auto simp: stored_analysis_keys_def)
  have a: "length (stored_analysis_keys ?st') = 10" by (rule g(3))
  have b: "set (stored_analysis_keys ?st') \<subseteq> set (stored_analysis_keys st)"
    using split by (auto simp: g(2))
  have c: "\<forall>k \<in> set (stored_analysis_keys ?st').
             \<forall>k' \<in> set (stored_analysis_keys st) - set (stored_analysis_keys ?st'). k' < k"
    unfolding removed using g(4) by (simp add: g(2))
  have d: "\<forall>k. k \<in> set (stored_analysis_keys ?st') \<or> \<not> startsWith k analysis_prefix
             \<longrightarrow> map_of ?st' k = map_of st k"
  proof (intro allI impI)
    fix k
    assume "k \<in> set (stored_analysis_keys ?st') \<or> \<not> startsWith k analysis_prefix"
    then have "k \<notin> set (drop 10 ?rs)"
      using disj pre g(2) by auto
    then show "map_of ?st' k = map_of st k"
      by (simp add: g(1) map_of_storage_remove)
  qed
  have e: "\<forall>k \<in> set (stored_analysis_keys st) - set (stored_analysis_keys ?st').
             map_of ?st' k = None"
    unfolding removed by (simp add: g(1) map_of_storage_remove)
  have f': "filter (\<lambda>kv. \<not> startsWith (fst kv) analysis_prefix) ?st'
           = filter (\<lambda>kv. \<not> startsWith (fst kv) analysis_prefix) st"
    using pre by (auto simp: g(1) storage_remove_def intro: filter_cong)
  from a b c d e f' show ?thesis by blast
qed

theorem cleanup_keeps_ten_greatest_witness:
  "distinct (object_keys store15) \<and> length (stored_analysis_keys store15) = 15 \<and>
   length (stored_analysis_keys (cleanupOldResults store15)) = 10 \<and>
   cleanupOldResults store15 =
     [(''or_api_key'', JStr ''sk-or-v1-abc''),
      (''analysis_2'', JNum 2), (''analysis_3'', JNum 3),
      (''analysis_4'', JNum 4), (''analysis_5'', JNum 5), (''analysis_6'', JNum 6),
      (''analysis_7'', JNum 7), (''analysis_8'', JNum 8), (''analysis_9'', JNum 9),
      (''analysis_14'', JNum 14), (''analysis_15'', JNum 15),
      (''user_threshold'', JNum 70)]"
proof -
  have d: "distinct (object_keys store15)" by code_simp
  have n: "length (stored_analysis_keys store15) = 15" by code_simp
  have r: "cleanupOldResults store15 =
     [(''or_api_key'', JStr ''sk-or-v1-abc''),
      (''analysis_2'', JNum 2), (''analysis_3'', JNum 3),
      (''analysis_4'', JNum 4), (''analysis_5'', JNum 5), (''analysis_6'', JNum 6),
      (''analysis_7'', JNum 7), (''analysis_8'', JNum 8), (''analysis_9'', JNum 9),
      (''analysis_14'', JNum 14), (''analysis_15'', JNum 15),
      (''user_threshold'', JNum 70)]"
    by code_simp
  from cleanup_keeps_ten_greatest [OF d n]
  have "length (stored_analysis_keys (cleanupOldResults store15)) = 10" by (rule conjunct1)
  with d n r show ?thesis by blast
qed

section \<open>Properties of the remote scan and the router\<close>

lemma bind_Inr_iff: "bind m f = Inr y \<longleftrightarrow> (\<exists>v. m = Inr v \<and> f v = Inr y)"
  by (cases m) (simp_all add: bind_def)

lemma bind_Inl: "m = Inl err \<Longrightarrow> bind m f = Inl err"
  by (simp add: bind_def)

lemma remote_Inr:
  assumes "analyzeEmailWithOpenRouter ev st e cfg = Inr (r, st')"
  obtains result k where "remote_reply ev cfg e = Inr result"
    and "r = reconcile result (threshold_of cfg)"
    and "analysis_key ev e = Inr k"
    and "st' = storage_set st k (stored_analysis ev cfg e r)"
  using assms by (auto simp: analyzeEmailWithOpenRouter_def bind_Inr_iff Let_def)

lemma remote_reply_Inl:
  "remote_reply ev cfg e = Inl err \<Longrightarrow> analyzeEmailWithOpenRouter ev st e cfg = Inl err"
  by (simp add: analyzeEmailWithOpenRouter_def bind_def)

text \<open>Each kind of failure of the remote scan is an exception of \<open>analyzeEmailWithOpenRouter\<close>.\<close>

lemma remote_failure_network:
  "truthy (or_api_key cfg) \<Longrightarrow> prompt_parts ev e = Inr pr \<Longrightarrow> fetch ev = None \<Longrightarrow>
     analyzeEmailWithOpenRouter ev st e cfg = Inl FetchRejected"
  by (simp add: remote_reply_Inl remote_reply_def bind_def)

lemma remote_failure_status:
  "truthy (or_api_key cfg) \<Longrightarrow> prompt_parts ev e = Inr pr \<Longrightarrow>
   fetch ev = Some resp \<Longrightarrow> \<not> ok resp \<Longrightarrow>
     analyzeEmailWithOpenRouter ev st e cfg = Inl (not_ok_error resp)"
  by (simp add: remote_reply_Inl remote_reply_def bind_def)

lemma remote_reply_ok:
  "truthy (or_api_key cfg) \<Longrightarrow> prompt_parts ev e = Inr pr \<Longrightarrow>
   fetch ev = Some resp \<Longrightarrow> ok resp \<Longrightarrow> json resp = Some data \<Longrightarrow>
   content_of data = Inr content \<Longrightarrow>
     remote_reply ev cfg e = parse_reply ev content"
  by (simp add: remote_reply_def bind_def)

lemma remote_failure_empty:
  "truthy (or_api_key cfg) \<Longrightarrow> prompt_parts ev e = Inr pr \<Longrightarrow>
   fetch ev = Some resp \<Longrightarrow> ok resp \<Longrightarrow> json resp = Some data \<Longrightarrow>
   content_of data = Inr content \<Longrightarrow> \<not> truthy content \<Longrightarrow>
     analyzeEmailWithOpenRouter ev st e cfg = Inl (Error (JStr ''No response from API''))"
  by (rule remote_reply_Inl) (simp add: remote_reply_ok [where pr = pr] parse_reply_def)

lemma remote_failure_no_object:
  "truthy (or_api_key cfg) \<Longrightarrow> prompt_parts ev e = Inr pr \<Longrightarrow>
   fetch ev = Some resp \<Longrightarrow> ok resp \<Longrightarrow> json resp = Some data \<Longrightarrow>
   content_of data = Inr (JStr c) \<Longrightarrow> c \<noteq> [] \<Longrightarrow> extract_json c = None \<Longrightarrow>
     analyzeEmailWithOpenRouter ev st e cfg =
       Inl (Error (JStr ''Invalid response format from API. Expected JSON object.''))"
  by (rule remote_reply_Inl) (simp add: remote_reply_ok [where pr = pr] parse_reply_def)

lemma remote_failure_malformed:
  "truthy (or_api_key cfg) \<Longrightarrow> prompt_parts ev e = Inr pr \<Longrightarrow>
   fetch ev = Some resp \<Longrightarrow> ok resp \<Longrightarrow> json resp = Some data \<Longrightarrow>
   content_of data = Inr (JStr c) \<Longrightarrow> c \<noteq> [] \<Longrightarrow> extract_json c = Some js \<Longrightarrow>
   JSON_parse ev js = None \<Longrightarrow>
     analyzeEmailWithOpenRouter ev st e cfg = Inl SyntaxError"
  by (rule remote_reply_Inl) (simp add: remote_reply_ok [where pr = pr] parse_reply_def)

lemma remote_failure_shape:
  "truthy (or_api_key cfg) \<Longrightarrow> prompt_parts ev e = Inr pr \<Longrightarrow>
   fetch ev = Some resp \<Longrightarrow> ok resp \<Longrightarrow> json resp = Some data \<Longrightarrow>
   content_of data = Inr (JStr c) \<Longrightarrow> c \<noteq> [] \<Longrightarrow> extract_json c = Some js \<Longrightarrow>
   JSON_parse ev js = Some (JObj fs) \<Longrightarrow> map_of fs ''recommendation'' = None \<Longrightarrow>
     analyzeEmailWithOpenRouter ev st e cfg =
       Inl (Error (JStr ''Invalid response structure from API''))"
  by (rule remote_reply_Inl)
    (simp add: remote_reply_ok [where pr = pr] parse_reply_def validate_def bind_def)

lemma analyzeEmail_no_key:
  "\<not> truthy (or_api_key (get_settings st)) \<Longrightarrow>
     analyzeEmail ev st e = (runLocalBasicScan ev e False, st)"
  by (simp add: analyzeEmail_def Let_def)

lemma analyzeEmail_remote_ok:
  "truthy (or_api_key (get_settings st)) \<Longrightarrow>
   analyzeEmailWithOpenRouter ev st e (get_settings st) = Inr (r, st') \<Longrightarrow>
     analyzeEmail ev st e = (Inr r, st')"
  by (simp add: analyzeEmail_def Let_def)

lemma analyzeEmail_remote_failed:
  "truthy (or_api_key (get_settings st)) \<Longrightarrow>
   analyzeEmailWithOpenRouter ev st e (get_settings st) = Inl err \<Longrightarrow>
     analyzeEmail ev st e = (runLocalBasicScan ev e True, st)"
  by (simp add: analyzeEmail_def Let_def)

lemma notice_not_prefix:
  "\<not> prefix fallback_notice phishing_msg"
  "\<not> prefix fallback_notice cautious_msg"
  "\<not> prefix fallback_notice safe_msg"
  by (simp_all add: fallback_notice_def phishing_msg_def cautious_msg_def safe_msg_def)

text \<open>
  C5, as the code has it. With a credential configured, whenever the remote scan throws
  (whatever the error), \<open>analyzeEmail\<close> settles with what the local scan in fallback mode
  does, and the store is as before. On an email on which the local scan returns (\<open>body\<close>
  and \<open>subject\<close> strings, \<open>links\<close> an array or failing the guard) no error reaches the
  caller and the recommendation starts with the failure notice; on any other email the
  TypeError of the local scan reaches the caller.
\<close>

theorem remote_failure_falls_back:
  assumes "truthy (or_api_key (get_settings st))"
    and "analyzeEmailWithOpenRouter ev st e (get_settings st) = Inl err"
  shows "analyzeEmail ev st e = (runLocalBasicScan ev e True, st) \<and>
         (well_formed ev e \<longrightarrow>
            (\<exists>r. analyzeEmail ev st e = (Inr r, st) \<and>
                 prefix fallback_notice (recommendation r))) \<and>
         (\<not> well_formed ev e \<longrightarrow> analyzeEmail ev st e = (Inl TypeError, st))"
proof -
  have a: "analyzeEmail ev st e = (runLocalBasicScan ev e True, st)"
    by (rule analyzeEmail_remote_failed [OF assms])
  have b: "\<exists>r. analyzeEmail ev st e = (Inr r, st) \<and> prefix fallback_notice (recommendation r)"
    if wf: "well_formed ev e"
  proof -
    obtain b0 s0 where "body e = JStr b0" "subject e = JStr s0"
      using wf by (auto simp: well_formed_def typeof_string)
    moreover have "isArray (links e) \<or> links_present ev (links e) = Inr False"
      using wf by (simp add: well_formed_def)
    ultimately obtain r where r: "runLocalBasicScan ev e True = Inr r"
      using runLocalBasicScan_ok by blast
    then have "recommendation r = local_recommendation (isPhishing r) (confidence r) True"
      by (auto elim: runLocalBasicScan_Inr)
    then have "prefix fallback_notice (recommendation r)"
      by (simp add: local_recommendation_def)
    with a r show ?thesis by simp
  qed
  have c: "analyzeEmail ev st e = (Inl TypeError, st)" if "\<not> well_formed ev e"
    using a runLocalBasicScan_bad [OF that] by simp
  from a b c show ?thesis by blast
qed

theorem remote_failure_falls_back_witness:
  "truthy (or_api_key (get_settings keyed_store)) \<and>
   analyzeEmailWithOpenRouter ev_offline keyed_store three_keyword_mail (get_settings keyed_store)
     = Inl FetchRejected \<and>
   analyzeEmailWithOpenRouter ev_rate_limited keyed_store three_keyword_mail (get_settings keyed_store)
     = Inl (Error (JStr ''Rate limit exceeded'')) \<and>
   well_formed ev_offline three_keyword_mail \<and> well_formed ev_rate_limited three_keyword_mail \<and>
   (\<exists>r. analyzeEmail ev_offline keyed_store three_keyword_mail = (Inr r, keyed_store) \<and>
        prefix fallback_notice (recommendation r)) \<and>
   (\<exists>r. analyzeEmail ev_rate_limited keyed_store three_keyword_mail = (Inr r, keyed_store) \<and>
        prefix fallback_notice (recommendation r))"
proof -
  have k: "truthy (or_api_key (get_settings keyed_store))" by code_simp
  have f1: "analyzeEmailWithOpenRouter ev_offline keyed_store three_keyword_mail
              (get_settings keyed_store) = Inl FetchRejected"
    by code_simp
  have f2: "analyzeEmailWithOpenRouter ev_rate_limited keyed_store three_keyword_mail
              (get_settings keyed_store) = Inl (Error (JStr ''Rate limit exceeded''))"
    by code_simp
  have w1: "well_formed ev_offline three_keyword_mail" by code_simp
  have w2: "well_formed ev_rate_limited three_keyword_mail" by code_simp
  show ?thesis
    using k f1 f2 w1 w2 remote_failure_falls_back [OF k f1] remote_failure_falls_back [OF k f2]
    by blast
qed

text \<open>
  C5, as stated, fails: with a credential and no network, an email without a \<open>subject\<close>
  makes the fallback scan throw, and the TypeError reaches the caller.
\<close>

theorem remote_failure_missing_subject_counterexample:
  "truthy (or_api_key (get_settings keyed_store)) \<and>
   analyzeEmailWithOpenRouter ev_offline keyed_store no_subject_mail (get_settings keyed_store)
     = Inl FetchRejected \<and>
   analyzeEmail ev_offline keyed_store no_subject_mail = (Inl TypeError, keyed_store)"
  by code_simp

text \<open>
  C6. Without a credential \<open>analyzeEmail\<close> returns what the local scan returns in normal
  mode, unchanged, and leaves the store as it was; the recommendation does not start with
  the failure notice.
\<close>

theorem no_credential_local_only:
  assumes "\<not> truthy (storage_get st ''or_api_key'')"
  shows "analyzeEmail ev st e = (runLocalBasicScan ev e False, st) \<and>
         (\<forall>r. runLocalBasicScan ev e False = Inr r \<longrightarrow>
                \<not> prefix fallback_notice (recommendation r))"
proof -
  have "\<not> truthy (or_api_key (get_settings st))"
    using assms by (simp add: get_settings_def)
  then have a: "analyzeEmail ev st e = (runLocalBasicScan ev e False, st)"
    by (rule analyzeEmail_no_key)
  have "\<not> prefix fallback_notice (recommendation r)"
    if "runLocalBasicScan ev e False = Inr r" for r
  proof -
    from that have "recommendation r = local_recommendation (isPhishing r) (confidence r) False"
      by (auto elim: runLocalBasicScan_Inr)
    then show ?thesis
      using notice_not_prefix by (simp add: local_recommendation_def)
  qed
  with a show ?thesis by blast
qed

theorem no_credential_local_only_witness:
  "\<not> truthy (storage_get store15_no_key ''or_api_key'') \<and>
   analyzeEmail ev_reply store15_no_key three_keyword_mail =
     (runLocalBasicScan ev_reply three_keyword_mail False, store15_no_key) \<and>
   (\<exists>r. runLocalBasicScan ev_reply three_keyword_mail False = Inr r \<and> confidence r = 75)"
proof -
  have k: "\<not> truthy (storage_get store15_no_key ''or_api_key'')" by code_simp
  have "runLocalBasicScan ev_reply three_keyword_mail False =
     Inr \<lparr> isPhishing = True, confidence = 75,
           indicators = [JStr (keyword_indicator ''urgent''),
                         JStr (keyword_indicator ''password expired''),
                         JStr (keyword_indicator ''payment failed''),
                         JStr link_mismatch_indicator],
           recommendation = phishing_msg \<rparr>"
    by code_simp
  then have "\<exists>r. runLocalBasicScan ev_reply three_keyword_mail False = Inr r \<and> confidence r = 75"
    by simp
  then show ?thesis
    using k no_credential_local_only [OF k, of ev_reply three_keyword_mail] by simp
qed

text \<open>
  C1, as the code has it. A result that \<open>analyzeEmail\<close> returns from the remote scan is
  flagged and has confidence at least 50 whenever it has an indicator, and is flagged
  whenever its confidence reaches the threshold. A result it returns from the local scan
  (no credential, or fallback) is flagged exactly when its confidence is at least 45; an
  indicator there only means a confidence of at least 10.
\<close>

theorem pipeline_result_consistency:
  assumes "analyzeEmail ev st e = (Inr r, st')"
  shows "(from_remote ev st e \<longrightarrow>
            (indicators r \<noteq> [] \<longrightarrow> isPhishing r \<and> 50 \<le> confidence r) \<and>
            (threshold_of (get_settings st) \<le> confidence r \<longrightarrow> isPhishing r)) \<and>
         (\<not> from_remote ev st e \<longrightarrow>
            (\<exists>fb. runLocalBasicScan ev e fb = Inr r) \<and>
            (isPhishing r \<longleftrightarrow> 45 \<le> confidence r) \<and>
            (indicators r \<noteq> [] \<longrightarrow> 10 \<le> confidence r))"
proof (cases "from_remote ev st e")
  case True
  then have key: "truthy (or_api_key (get_settings st))"
    and "\<not> isl (analyzeEmailWithOpenRouter ev st e (get_settings st))"
    by (simp_all add: from_remote_def)
  then obtain r1 st1 where ok: "analyzeEmailWithOpenRouter ev st e (get_settings st) = Inr (r1, st1)"
    by (cases "analyzeEmailWithOpenRouter ev st e (get_settings st)") auto
  with assms key have "r1 = r" by (simp add: analyzeEmail_remote_ok)
  with ok obtain result where "r = reconcile result (threshold_of (get_settings st))"
    by (auto elim: remote_Inr)
  then show ?thesis
    using True reconcile_invariant [where r = result and t = "threshold_of (get_settings st)"]
    by simp
next
  case False
  have "\<exists>fb. analyzeEmail ev st e = (runLocalBasicScan ev e fb, st)"
  proof (cases "truthy (or_api_key (get_settings st))")
    case no: False
    then show ?thesis using analyzeEmail_no_key by blast
  next
    case yes: True
    with False obtain err where "analyzeEmailWithOpenRouter ev st e (get_settings st) = Inl err"
      by (cases "analyzeEmailWithOpenRouter ev st e (get_settings st)") (auto simp: from_remote_def)
    with yes show ?thesis using analyzeEmail_remote_failed by blast
  qed
  then obtain fb where l: "runLocalBasicScan ev e fb = Inr r"
    using assms by auto
  show ?thesis
    using False l local_result_facts(3,5) [OF l] by blast
qed

theorem pipeline_result_consistency_witness:
  "analyzeEmail ev_reply keyed_store three_keyword_mail
     = (Inr reply_result,
        storage_set keyed_store ''analysis_m1''
          (stored_analysis ev_reply (get_settings keyed_store) three_keyword_mail reply_result)) \<and>
   from_remote ev_reply keyed_store three_keyword_mail \<and>
   indicators reply_result \<noteq> [] \<and> isPhishing reply_result \<and> 50 \<le> confidence reply_result"
proof -
  have a: "analyzeEmail ev_reply keyed_store three_keyword_mail
     = (Inr reply_result,
        storage_set keyed_store ''analysis_m1''
          (stored_analysis ev_reply (get_settings keyed_store) three_keyword_mail reply_result))"
    by code_simp
  have f: "from_remote ev_reply keyed_store three_keyword_mail" by code_simp
  have i: "indicators reply_result \<noteq> []" by (simp add: reply_result_def)
  show ?thesis
    using a f i pipeline_result_consistency [OF a] by simp
qed

text \<open>
  C1, as stated, fails: without a credential, an email whose subject is "URGENT" comes
  back with one indicator, not flagged, with confidence 15.
\<close>

theorem pipeline_local_result_counterexample:
  "analyzeEmail ev_offline [] urgent_mail = (Inr urgent_result, []) \<and>
   indicators urgent_result \<noteq> [] \<and> \<not> isPhishing urgent_result \<and> confidence urgent_result < 50"
proof -
  have "analyzeEmail ev_offline [] urgent_mail = (Inr urgent_result, [])" by code_simp
  then show ?thesis by (simp add: urgent_result_def)
qed

end
